theory Spec2Isabelle
  imports Complex_Main "HOL-Library.Word" "HOL-Library.AList"
begin

unbundle bit_operations_syntax

section \<open>Common types\<close>

text \<open>
  A byte is an element of a Python \<open>bytes\<close> or \<open>bytearray\<close> object: an integer in
  \<open>0..255\<close>. Every other Python integer is unbounded and is an \<open>int\<close>.
\<close>

type_synonym byte = "8 word"

text \<open>
  The ways in which a call of the modelled code can fail to return a value. The first four
  are the Python exceptions the code can raise. \<open>Deadlock\<close> is not an exception: it stands
  for a thread that acquires a \<open>threading.Lock\<close> it already holds and therefore never
  returns.
\<close>

datatype py_error = IndexError | KeyError | ValueError | SocketError | Deadlock

section \<open>Thermal frame acquisition (\<open>sensors/omron_d6t/omron_d6t.py\<close>)\<close>

subsection \<open>Constants of class \<open>OmronD6T\<close>\<close>

definition ARRAY_SIZE :: nat where
  "ARRAY_SIZE = 16"

definition BUFFER_LENGTH :: nat where
  "BUFFER_LENGTH = 35"

definition PEC_PREFIX :: "byte list" where
  "PEC_PREFIX = [0x15]"

definition MAX_CELLS_ABOVE_ROOM_TEMPERATURE :: nat where
  "MAX_CELLS_ABOVE_ROOM_TEMPERATURE = 10"

subsection \<open>The checksum\<close>

text \<open>
  \<open>crcmod.predefined.mkCrcFun('crc-8')\<close> is the CRC of the library \<open>crcmod\<close> with
  generator polynomial \<open>x^8 + x^2 + x + 1\<close> (\<open>0x107\<close>), initial value 0, no bit reversal
  and no final xor. One step shifts the register left by one bit and subtracts the
  polynomial when the bit shifted out was set; a byte is folded in by xor followed by
  eight steps.
\<close>

definition crc8_shift :: "byte \<Rightarrow> byte" where
  "crc8_shift c = (if bit c 7 then push_bit 1 c XOR 0x07 else push_bit 1 c)"

definition crc8_update :: "byte \<Rightarrow> byte \<Rightarrow> byte" where
  "crc8_update c b = (crc8_shift ^^ 8) (c XOR b)"

definition crc8_func :: "byte list \<Rightarrow> byte" where
  "crc8_func buf = foldl crc8_update 0 buf"

definition calculate_pec :: "byte list \<Rightarrow> byte" where
  "calculate_pec buf = crc8_func (PEC_PREFIX @ buf)"

subsection \<open>Decoding a frame\<close>

text \<open>
  Python's \<open>range(start, stop, step)\<close> for a positive step and non-negative bounds.
\<close>

definition py_range :: "nat \<Rightarrow> nat \<Rightarrow> nat \<Rightarrow> nat list" where
  "py_range start stop step = map (\<lambda>i. start + i * step) [0..<(stop - start + step - 1) div step]"

text \<open>
  \<open>(raw_sensor_buffer[j + 1] << 8) | raw_sensor_buffer[j]\<close> on Python integers.
\<close>

definition le16 :: "byte list \<Rightarrow> nat \<Rightarrow> int" where
  "le16 buf j = push_bit 8 (uint (buf ! (j + 1))) OR uint (buf ! j)"

text \<open>
  The temperatures are the quotients \<open>t / 10\<close> of Python's true division. They are
  modelled by the exact quotient in \<open>real\<close>; the rounding of the quotient to a double is
  not modelled. Rounding is monotone and two distinct quotients of 16-bit values by 10
  differ by at least \<open>0.1\<close>, so the comparisons of the occupancy decision are unaffected.
\<close>

type_synonym frame = "real \<times> real list"

text \<open>
  The body of the \<open>for j in range(2, len(raw_sensor_buffer) - 2, 2)\<close> loop, with the
  counter \<open>cur_pixel\<close> and the list \<open>temperature\<close> threaded through.
\<close>

fun fill_pixels :: "byte list \<Rightarrow> nat list \<Rightarrow> nat \<Rightarrow> real list \<Rightarrow> real list" where
  "fill_pixels buf [] cur_pixel temperature = temperature"
| "fill_pixels buf (j # js) cur_pixel temperature =
     fill_pixels buf js (cur_pixel + 1) (temperature[cur_pixel := real_of_int (le16 buf j) / 10])"

text \<open>
  \<open>__parse_temperature_data\<close>. After the length check the buffer has 35 bytes, so the
  loop runs for \<open>j = 2, 4, ..., 32\<close> and every index \<open>j\<close>, \<open>j + 1\<close> and \<open>cur_pixel\<close>
  it uses is in range.
\<close>

definition parse_temperature_data :: "byte list \<Rightarrow> frame option" where
  "parse_temperature_data raw_sensor_buffer =
     (if length raw_sensor_buffer \<noteq> BUFFER_LENGTH then None
      else
        let t = le16 raw_sensor_buffer 0;
            room_temperature = real_of_int t / 10;
            temperature = replicate ARRAY_SIZE 0
        in Some (room_temperature,
                 fill_pixels raw_sensor_buffer
                   (py_range 2 (length raw_sensor_buffer - 2) 2) 0 temperature))"

subsection \<open>The retry loop\<close>

text \<open>
  The base class \<open>Sensor\<close> is not part of the sources at hand. Its method
  \<open>read_raw_data\<close> returns a byte count together with a buffer, and its constant
  \<open>_MAX_RETRIES\<close> bounds the loop; both are parameters here. The bus is a function from
  the number of reads performed so far to the answer of the next read, and the number of
  reads performed is the state that \<open>read\<close> passes on.
\<close>

type_synonym bus = "nat \<Rightarrow> int \<times> byte list"

text \<open>
  \<open>__read\<close>: the loop \<open>for i in range(self._MAX_RETRIES)\<close>, by recursion on the number
  of iterations left. \<open>sensor_raw_data[-1]\<close> raises \<open>IndexError\<close> on an empty buffer and
  \<open>sensor_raw_data[:-1]\<close> drops the last byte.
\<close>

fun read_loop :: "bus \<Rightarrow> nat \<Rightarrow> nat \<Rightarrow> (py_error + frame option) \<times> nat" where
  "read_loop read_raw_data 0 k = (Inr None, k)"
| "read_loop read_raw_data (Suc n) k =
     (let (bytes_read, sensor_raw_data) = read_raw_data k in
      if bytes_read = int BUFFER_LENGTH then
        (if sensor_raw_data = [] then (Inl IndexError, Suc k)
         else
           let crc_expected = last sensor_raw_data;
               crc_actual = calculate_pec (butlast sensor_raw_data)
           in if crc_expected = crc_actual
              then (Inr (parse_temperature_data sensor_raw_data), Suc k)
              else read_loop read_raw_data n (Suc k))
      else read_loop read_raw_data n (Suc k))"

definition read :: "bus \<Rightarrow> nat \<Rightarrow> nat \<Rightarrow> (py_error + frame option) \<times> nat" where
  "read read_raw_data MAX_RETRIES k = read_loop read_raw_data MAX_RETRIES k"

text \<open>
  The two failures after which \<open>__read\<close> tries again: the byte count is not the frame
  length, or the last byte of the buffer is not the checksum of the prefix byte followed
  by the bytes before it.
\<close>

definition attempt_mismatch :: "int \<times> byte list \<Rightarrow> bool" where
  "attempt_mismatch r =
     (fst r \<noteq> 35 \<or> (snd r \<noteq> [] \<and> last (snd r) \<noteq> crc8_func (0x15 # butlast (snd r))))"

subsection \<open>The occupancy decision\<close>

text \<open>
  \<open>sum(temperature > room_temperature for temperature in temperature_array)\<close>: a sum
  of booleans, each counting 1 when true.
\<close>

definition temperature_cells_above_threshold :: "real \<Rightarrow> real list \<Rightarrow> nat" where
  "temperature_cells_above_threshold room_temperature temperature_array =
     sum_list (map (\<lambda>temperature. if temperature > room_temperature then 1 else 0) temperature_array)"

definition occupied_status :: "bus \<Rightarrow> nat \<Rightarrow> nat \<Rightarrow> (py_error + bool) \<times> nat" where
  "occupied_status read_raw_data MAX_RETRIES k =
     (case read read_raw_data MAX_RETRIES k of
        (Inl e, k') \<Rightarrow> (Inl e, k')
      | (Inr None, k') \<Rightarrow> (Inr False, k')
      | (Inr (Some (room_temperature, temperature_matrix)), k') \<Rightarrow>
          (Inr (temperature_cells_above_threshold room_temperature temperature_matrix
                  \<ge> MAX_CELLS_ABOVE_ROOM_TEMPERATURE), k'))"


section \<open>The simulated GPIO and its network server (\<open>rpi_simulator.py\<close>)\<close>

subsection \<open>State\<close>

text \<open>
  The two locks of the module that the operations below take: the module-level
  \<open>_pin_map_lock\<close> and \<open>SimulatorConnection.sync_client_lock\<close>.
\<close>

datatype lock = PinMapLock | SyncClientLock

text \<open>
  What a thread does that is visible outside the pin table: taking and releasing a lock,
  calling a registered callback with a pin id, and calling \<open>clientSocket.send\<close> with a
  byte sequence. A callback is a Python callable; it is identified by a number, and what
  it does when called is given by an environment (see \<open>callbacks\<close> below).
\<close>

datatype event = Acquire lock | Release lock | Invoke nat int | Send "byte list"

text \<open>
  The module state. \<open>pin_map\<close> is the dictionary \<open>_pin_map\<close>, in insertion order, from a
  pin to the pair of its value and its callback (\<open>None\<close> when there is none).
  \<open>simulatorConn\<close> tells whether the module-level \<open>simulatorConn\<close> is set,
  \<open>should_sync\<close> is its flag, \<open>socket_up\<close> tells whether \<open>clientSocket.send\<close> succeeds
  or raises \<open>socket.error\<close>, and \<open>trace\<close> lists the events of the running thread so far.
\<close>

record sim_state =
  pin_map :: "(int \<times> int \<times> nat option) list"
  should_sync :: bool
  simulatorConn :: bool
  socket_up :: bool
  trace :: "event list"

type_synonym 'a outcome = "(py_error + 'a) \<times> sim_state"

type_synonym callbacks = "nat \<Rightarrow> int \<Rightarrow> sim_state \<Rightarrow> unit outcome"

subsection \<open>Locks\<close>

text \<open>The locks held after a sequence of events, starting from the set \<open>H\<close>.\<close>

fun lock_step :: "lock set \<Rightarrow> event \<Rightarrow> lock set" where
  "lock_step H (Acquire l) = insert l H"
| "lock_step H (Release l) = H - {l}"
| "lock_step H (Invoke c pin) = H"
| "lock_step H (Send b) = H"

definition held_after :: "lock set \<Rightarrow> event list \<Rightarrow> lock set" where
  "held_after H es = foldl lock_step H es"

definition held :: "sim_state \<Rightarrow> lock set" where
  "held s = held_after {} (trace s)"

text \<open>
  \<open>threading.Lock\<close> is not re-entrant: a thread that acquires a lock it holds blocks for
  ever.
\<close>

definition acquire :: "lock \<Rightarrow> sim_state \<Rightarrow> unit outcome" where
  "acquire l s =
     (if l \<in> held s then (Inl Deadlock, s) else (Inr (), s\<lparr>trace := trace s @ [Acquire l]\<rparr>))"

definition release :: "lock \<Rightarrow> sim_state \<Rightarrow> sim_state" where
  "release l s = s\<lparr>trace := trace s @ [Release l]\<rparr>"

text \<open>
  \<open>with l: body\<close>. The lock is released when the body returns and when it raises; a
  body that blocks for ever keeps it.
\<close>

definition with_lock :: "lock \<Rightarrow> (sim_state \<Rightarrow> 'a outcome) \<Rightarrow> sim_state \<Rightarrow> 'a outcome" where
  "with_lock l body s =
     (case acquire l s of
        (Inl e, s') \<Rightarrow> (Inl e, s')
      | (Inr _, s1) \<Rightarrow>
          (case body s1 of
             (Inl Deadlock, s2) \<Rightarrow> (Inl Deadlock, s2)
           | (r, s2) \<Rightarrow> (r, release l s2)))"

subsection \<open>The sync flag of \<open>SimulatorConnection\<close>\<close>

definition set_should_sync :: "bool \<Rightarrow> sim_state \<Rightarrow> unit outcome" where
  "set_should_sync val s = with_lock SyncClientLock (\<lambda>s. (Inr (), s\<lparr>should_sync := val\<rparr>)) s"

definition should_sync_client :: "sim_state \<Rightarrow> bool outcome" where
  "should_sync_client s = with_lock SyncClientLock (\<lambda>s. (Inr (should_sync s), s)) s"

subsection \<open>Class \<open>GPIO\<close>\<close>

text \<open>
  \<open>_pin_map[pin] = v\<close> replaces the value of a key in place and appends a new key at the
  end, as \<open>AList.update\<close> does; \<open>pin in _pin_map\<close> and \<open>_pin_map[pin]\<close> are \<open>map_of\<close>,
  the latter raising \<open>KeyError\<close> on a missing key. The \<open>print\<close> calls are left out.
\<close>

definition GPIO_add_event_detect ::
  "int \<Rightarrow> int \<Rightarrow> nat option \<Rightarrow> int \<Rightarrow> sim_state \<Rightarrow> unit outcome" where
  "GPIO_add_event_detect pin rf_type callback bouncetime s =
     with_lock PinMapLock
       (\<lambda>s. case map_of (pin_map s) pin of
               None \<Rightarrow> (Inl KeyError, s)
             | Some (curState, old_call) \<Rightarrow>
                 (Inr (), s\<lparr>pin_map := AList.update pin (curState, callback) (pin_map s)\<rparr>)) s"

text \<open>\<open>input\<close> returns Python's \<open>None\<close> when the pin is not in the table.\<close>

definition GPIO_input :: "int \<Rightarrow> sim_state \<Rightarrow> int option outcome" where
  "GPIO_input pin s =
     with_lock PinMapLock
       (\<lambda>s. case map_of (pin_map s) pin of
               None \<Rightarrow> (Inr None, s)
             | Some (state, callback) \<Rightarrow> (Inr (Some state), s)) s"

definition invoke :: "callbacks \<Rightarrow> nat \<Rightarrow> int \<Rightarrow> sim_state \<Rightarrow> unit outcome" where
  "invoke env c pin s = env c pin (s\<lparr>trace := trace s @ [Invoke c pin]\<rparr>)"

text \<open>
  \<open>output(pin, value)\<close>: the critical section yields the callback to call (\<open>None\<close> when
  the pin is not in the table or has no callback); the callback is called after the
  \<open>with\<close> block, and then the flag of the server is set when there is a server.
\<close>

definition GPIO_output :: "callbacks \<Rightarrow> int \<Rightarrow> int \<Rightarrow> sim_state \<Rightarrow> unit outcome" where
  "GPIO_output env pin val s =
     (case with_lock PinMapLock
             (\<lambda>s. case map_of (pin_map s) pin of
                     None \<Rightarrow> (Inr None, s)
                   | Some (old_val, callback) \<Rightarrow>
                       (Inr callback, s\<lparr>pin_map := AList.update pin (val, callback) (pin_map s)\<rparr>)) s of
        (Inl e, s1) \<Rightarrow> (Inl e, s1)
      | (Inr callback, s1) \<Rightarrow>
          (case (case callback of None \<Rightarrow> (Inr (), s1) | Some c \<Rightarrow> invoke env c pin s1) of
             (Inl e, s2) \<Rightarrow> (Inl e, s2)
           | (Inr _, s2) \<Rightarrow>
               if simulatorConn s2 then set_should_sync True s2 else (Inr (), s2)))"

definition GPIO_setup :: "int \<Rightarrow> int \<Rightarrow> sim_state \<Rightarrow> unit outcome" where
  "GPIO_setup pin dir s =
     with_lock PinMapLock
       (\<lambda>s. (Inr (), s\<lparr>pin_map := AList.update pin (0, None) (pin_map s)\<rparr>)) s"

subsection \<open>Class \<open>SimulatorConnection\<close>\<close>

text \<open>\<open>bytearray.append(x)\<close> raises \<open>ValueError\<close> unless \<open>0 \<le> x < 256\<close>.\<close>

definition append_byte :: "byte list \<Rightarrow> int \<Rightarrow> py_error + byte list" where
  "append_byte send_b x =
     (if 0 \<le> x \<and> x < 256 then Inr (send_b @ [word_of_int x]) else Inl ValueError)"

text \<open>The loop \<open>for pin, (state, callback) in _pin_map.items()\<close> of \<open>sync_with_client\<close>.\<close>

fun serialize_pins :: "(int \<times> int \<times> nat option) list \<Rightarrow> byte list \<Rightarrow> py_error + byte list" where
  "serialize_pins [] send_b = Inr send_b"
| "serialize_pins ((pin, state, callback) # items) send_b =
     (case append_byte (send_b @ [0x35]) pin of
        Inl e \<Rightarrow> Inl e
      | Inr send_b1 \<Rightarrow>
          (case append_byte send_b1 state of
             Inl e \<Rightarrow> Inl e
           | Inr send_b2 \<Rightarrow> serialize_pins items send_b2))"

definition socket_send :: "byte list \<Rightarrow> sim_state \<Rightarrow> unit outcome" where
  "socket_send b s =
     (let s' = s\<lparr>trace := trace s @ [Send b]\<rparr>
      in if socket_up s then (Inr (), s') else (Inl SocketError, s'))"

definition sync_with_client :: "sim_state \<Rightarrow> unit outcome" where
  "sync_with_client s =
     with_lock PinMapLock
       (\<lambda>s. case serialize_pins (pin_map s) [] of
               Inl e \<Rightarrow> (Inl e, s)
             | Inr send_b \<Rightarrow>
                 (case socket_send send_b s of
                    (Inl e, s') \<Rightarrow> (Inl e, s')
                  | (Inr _, s') \<Rightarrow> set_should_sync False s')) s"

text \<open>Indexing a \<open>bytes\<close> object with a non-negative index.\<close>

definition item :: "byte list \<Rightarrow> nat \<Rightarrow> py_error + byte" where
  "item chunk i = (if i < length chunk then Inr (chunk ! i) else Inl IndexError)"

definition process_message :: "callbacks \<Rightarrow> byte list \<Rightarrow> sim_state \<Rightarrow> unit outcome" where
  "process_message env chunk s =
     (if length chunk < 1 \<or> length chunk > 3 then (Inr (), s)
      else
        case item chunk 0 of
          Inl e \<Rightarrow> (Inl e, s)
        | Inr cmd_num \<Rightarrow>
            if cmd_num = 0x35 then
              (case item chunk 1 of
                 Inl e \<Rightarrow> (Inl e, s)
               | Inr arg_1 \<Rightarrow>
                   (case item chunk 2 of
                      Inl e \<Rightarrow> (Inl e, s)
                    | Inr arg_2 \<Rightarrow> GPIO_output env (uint arg_1) (uint arg_2) s))
            else if cmd_num = 0x10 then sync_with_client s
            else (Inr (), s))"

text \<open>
  What \<open>clientSocket.recv(1024)\<close> does in one iteration of the loop of
  \<open>server_run_thread\<close>: it returns a chunk, or raises \<open>socket.error\<close> with
  \<open>errno = EAGAIN\<close> because no data is available, or raises another \<open>socket.error\<close>.
\<close>

datatype recv_result = Received "byte list" | NoData | RecvError

text \<open>
  \<open>except socket.error\<close>: both branches of the handler return normally (one ignores the
  error, the other prints it); every other exception leaves the loop.
\<close>

definition except_socket_error :: "unit outcome \<Rightarrow> unit outcome" where
  "except_socket_error r = (case r of (Inl SocketError, s) \<Rightarrow> (Inr (), s) | _ \<Rightarrow> r)"

text \<open>The body of \<open>while self.can_run_thread()\<close>, without the final \<open>sleep\<close>.\<close>

definition server_loop_body :: "callbacks \<Rightarrow> recv_result \<Rightarrow> sim_state \<Rightarrow> unit outcome" where
  "server_loop_body env r s =
     (case r of
        Received chunk \<Rightarrow>
          except_socket_error
            (case process_message env chunk s of
               (Inl e, s1) \<Rightarrow> (Inl e, s1)
             | (Inr _, s1) \<Rightarrow>
                 (case should_sync_client s1 of
                    (Inl e, s2) \<Rightarrow> (Inl e, s2)
                  | (Inr b, s2) \<Rightarrow> if b then sync_with_client s2 else (Inr (), s2)))
      | NoData \<Rightarrow> (Inr (), s)
      | RecvError \<Rightarrow> (Inr (), s))"

subsection \<open>Lock discipline of a trace\<close>

definition is_invoke :: "event \<Rightarrow> bool" where
  "is_invoke e = (case e of Invoke c pin \<Rightarrow> True | _ \<Rightarrow> False)"

definition is_send :: "event \<Rightarrow> bool" where
  "is_send e = (case e of Send b \<Rightarrow> True | _ \<Rightarrow> False)"

definition is_external :: "event \<Rightarrow> bool" where
  "is_external e = (is_invoke e \<or> is_send e)"

text \<open>
  \<open>outside_lock P H es\<close>: along the events \<open>es\<close>, starting with the locks \<open>H\<close> held, no
  event of the kind \<open>P\<close> happens while the pin table lock is held.
\<close>

fun outside_lock :: "(event \<Rightarrow> bool) \<Rightarrow> lock set \<Rightarrow> event list \<Rightarrow> bool" where
  "outside_lock P H [] = True"
| "outside_lock P H (e # es) =
     ((if P e then PinMapLock \<notin> H else True) \<and> outside_lock P (lock_step H e) es)"

text \<open>
  The state between two operations of a thread that follows the discipline: the thread
  holds no lock, and so far no callback was called while the pin table lock was held.
\<close>

definition lock_free :: "sim_state \<Rightarrow> bool" where
  "lock_free s = (held s = {} \<and> outside_lock is_invoke {} (trace s))"

subsection \<open>The wire format of a full sync\<close>

text \<open>
  The triple \<open>0x35 <pin> <value>\<close> of one entry of the pin table, and the condition under
  which an entry fits into it: pin id and value are bytes.
\<close>

definition pin_triple :: "int \<times> int \<times> nat option \<Rightarrow> byte list" where
  "pin_triple entry = (case entry of (pin, state, callback) \<Rightarrow> [0x35, word_of_int pin, word_of_int state])"

definition fits_triple :: "int \<times> int \<times> nat option \<Rightarrow> bool" where
  "fits_triple entry =
     (case entry of (pin, state, callback) \<Rightarrow> 0 \<le> pin \<and> pin < 256 \<and> 0 \<le> state \<and> state < 256)"

section \<open>Example inputs\<close>

text \<open>
  A frame with room temperature 25.0 whose first ten pixels read 25.1 and whose last six
  read 10.0, with its checksum; and the same frame with only nine pixels at 25.1.
\<close>

definition example_frame :: "byte list" where
  "example_frame =
     [0xFA, 0x00,
      0xFB, 0x00, 0xFB, 0x00, 0xFB, 0x00, 0xFB, 0x00, 0xFB, 0x00,
      0xFB, 0x00, 0xFB, 0x00, 0xFB, 0x00, 0xFB, 0x00, 0xFB, 0x00,
      0x64, 0x00, 0x64, 0x00, 0x64, 0x00, 0x64, 0x00, 0x64, 0x00, 0x64, 0x00,
      0xD3]"

definition example_frame_nine :: "byte list" where
  "example_frame_nine =
     [0xFA, 0x00,
      0xFB, 0x00, 0xFB, 0x00, 0xFB, 0x00, 0xFB, 0x00, 0xFB, 0x00,
      0xFB, 0x00, 0xFB, 0x00, 0xFB, 0x00, 0xFB, 0x00, 0x64, 0x00,
      0x64, 0x00, 0x64, 0x00, 0x64, 0x00, 0x64, 0x00, 0x64, 0x00, 0x64, 0x00,
      0xF8]"

definition example_decoded :: frame where
  "example_decoded =
     (25, [251 / 10, 251 / 10, 251 / 10, 251 / 10, 251 / 10, 251 / 10, 251 / 10, 251 / 10,
           251 / 10, 251 / 10, 10, 10, 10, 10, 10, 10])"

definition example_decoded_nine :: frame where
  "example_decoded_nine =
     (25, [251 / 10, 251 / 10, 251 / 10, 251 / 10, 251 / 10, 251 / 10, 251 / 10, 251 / 10,
           251 / 10, 10, 10, 10, 10, 10, 10, 10])"

text \<open>
  A bus that first returns a short read, then the frame with its last byte flipped, then
  the frame; a bus that returns the nine-pixel frame; and a bus that always returns the
  frame with its last byte flipped.
\<close>

definition example_bus :: bus where
  "example_bus k =
     (if k = 0 then (34, butlast example_frame)
      else if k = 1 then (35, butlast example_frame @ [0x2C])
      else (35, example_frame))"

definition nine_bus :: bus where
  "nine_bus k = (35, example_frame_nine)"

definition failing_bus :: bus where
  "failing_bus k = (35, butlast example_frame @ [0x2C])"

text \<open>
  States of the simulator with a server attached and a working client socket: no pin
  registered; pin 1 registered without a callback; pin 1 registered with callback 7; and
  pin 1 holding the value 256; and pins 1 and 4 registered, pin 4 with value 1 and
  callback 7.
\<close>

definition initial_state :: sim_state where
  "initial_state =
     \<lparr>pin_map = [], should_sync = False, simulatorConn = True, socket_up = True, trace = []\<rparr>"

definition one_pin_state :: sim_state where
  "one_pin_state = initial_state\<lparr>pin_map := [(1, 0, None)]\<rparr>"

definition callback_state :: sim_state where
  "callback_state = initial_state\<lparr>pin_map := [(1, 0, Some 7)]\<rparr>"

definition wide_value_state :: sim_state where
  "wide_value_state = initial_state\<lparr>pin_map := [(1, 256, None)]\<rparr>"

definition two_pin_state :: sim_state where
  "two_pin_state = initial_state\<lparr>pin_map := [(1, 0, None), (4, 1, Some 7)]\<rparr>"

text \<open>A callback that reads the pin it is called for, through \<open>GPIO.input\<close>.\<close>

definition reading_callback :: callbacks where
  "reading_callback c pin s =
     (case GPIO_input pin s of (Inl e, s') \<Rightarrow> (Inl e, s') | (Inr v, s') \<Rightarrow> (Inr (), s'))"

section \<open>Properties of the acquisition pipeline\<close>

subsection \<open>Decoding\<close>

lemma le16_eq: "le16 buf j = 256 * uint (buf ! (j + 1)) + uint (buf ! j)"
proof -
  have lo: "take_bit 8 (uint (buf ! j)) = uint (buf ! j)"
    using uint_bounded [of "buf ! j"] by (simp add: take_bit_int_eq_self)
  have "le16 buf j = concat_bit 8 (uint (buf ! j)) (uint (buf ! (j + 1)))"
    by (simp add: le16_def concat_bit_def lo or.commute)
  also have "\<dots> = take_bit 8 (uint (buf ! j)) + push_bit 8 (uint (buf ! (j + 1)))"
    by (rule concat_bit_eq)
  finally show ?thesis
    by (simp add: push_bit_eq_mult lo)
qed

lemma fill_pixels_eq:
  "cur + length js \<le> length temp \<Longrightarrow>
   fill_pixels buf js cur temp =
     take cur temp @ map (\<lambda>j. real_of_int (le16 buf j) / 10) js @ drop (cur + length js) temp"
proof (induction js arbitrary: cur temp)
  case Nil
  then show ?case by simp
next
  case (Cons j js)
  let ?v = "real_of_int (le16 buf j) / 10"
  let ?t = "temp[cur := ?v]"
  from Cons.prems have c: "cur < length temp" and l: "Suc cur + length js \<le> length ?t"
    by simp_all
  have "fill_pixels buf (j # js) cur temp = fill_pixels buf js (Suc cur) ?t"
    by simp
  also have "\<dots> = take (Suc cur) ?t @ map (\<lambda>j. real_of_int (le16 buf j) / 10) js
      @ drop (Suc cur + length js) ?t"
    by (rule Cons.IH [OF l])
  also have "take (Suc cur) ?t = take cur temp @ [?v]"
    using c by (simp add: take_Suc_conv_app_nth)
  also have "drop (Suc cur + length js) ?t = drop (cur + length (j # js)) temp"
    by simp
  finally show ?case by simp
qed

lemma py_range_frame: "py_range 2 33 2 = map (\<lambda>i. 2 + 2 * i) [0..<16]"
  by (simp add: py_range_def mult.commute)

lemma parse_eq:
  assumes "length raw = 35"
  shows "parse_temperature_data raw =
     Some (real_of_int (le16 raw 0) / 10, map (\<lambda>i. real_of_int (le16 raw (2 + 2 * i)) / 10) [0..<16])"
  using assms
  by (simp add: parse_temperature_data_def BUFFER_LENGTH_def ARRAY_SIZE_def py_range_frame
      fill_pixels_eq comp_def del: upt_rec_numeral)

lemma read_loop_bound: "snd (read_loop bus n k) \<le> k + n"
proof (induction n arbitrary: k)
  case 0
  show ?case by simp
next
  case (Suc n)
  have "snd (read_loop bus n (Suc k)) \<le> Suc k + n"
    by (rule Suc.IH)
  then show ?case
    by (simp add: Let_def split: prod.splits)
qed


lemma read_loop_mismatch:
  "attempt_mismatch (bus k) \<Longrightarrow> read_loop bus (Suc n) k = read_loop bus n (Suc k)"
  by (auto simp: attempt_mismatch_def calculate_pec_def PEC_PREFIX_def BUFFER_LENGTH_def Let_def
      split: prod.splits)

lemma read_loop_checked:
  "\<not> attempt_mismatch (bus k) \<Longrightarrow>
   read_loop bus (Suc n) k =
     (if snd (bus k) = [] then (Inl IndexError, Suc k)
      else (Inr (parse_temperature_data (snd (bus k))), Suc k))"
  by (auto simp: attempt_mismatch_def calculate_pec_def PEC_PREFIX_def BUFFER_LENGTH_def Let_def
      split: prod.splits)

declare read_loop.simps(2) [simp del]

lemma parse_Some_length: "parse_temperature_data raw = Some fr \<Longrightarrow> length raw = 35"
  by (simp add: parse_temperature_data_def BUFFER_LENGTH_def split: if_splits)

lemma frame_last: "length raw = 35 \<Longrightarrow> last raw = raw ! 34 \<and> butlast raw = take 34 raw"
  by (cases raw rule: rev_cases) (simp_all add: nth_append)

lemma read_loop_Some:
  "fst (read_loop bus n k) = Inr (Some fr) \<Longrightarrow>
   \<exists>i<n. (\<forall>j<i. attempt_mismatch (bus (k + j))) \<and> \<not> attempt_mismatch (bus (k + i)) \<and>
          parse_temperature_data (snd (bus (k + i))) = Some fr \<and>
          snd (read_loop bus n k) = k + i + 1"
proof (induction n arbitrary: k)
  case 0
  then show ?case by simp
next
  case (Suc n)
  show ?case
  proof (cases "attempt_mismatch (bus k)")
    case True
    with Suc.prems have "fst (read_loop bus n (Suc k)) = Inr (Some fr)"
      by (simp only: read_loop_mismatch)
    from Suc.IH [OF this] obtain i where i: "i < n"
      "\<forall>j<i. attempt_mismatch (bus (Suc k + j))" "\<not> attempt_mismatch (bus (Suc k + i))"
      "parse_temperature_data (snd (bus (Suc k + i))) = Some fr"
      "snd (read_loop bus n (Suc k)) = Suc k + i + 1"
      by blast
    have "\<forall>j<Suc i. attempt_mismatch (bus (k + j))"
    proof (intro allI impI)
      fix j assume "j < Suc i"
      then show "attempt_mismatch (bus (k + j))"
        using True i(2) by (cases j) simp_all
    qed
    with i True show ?thesis
      by (intro exI [of _ "Suc i"]) (simp add: read_loop_mismatch)
  next
    case False
    with Suc.prems have "parse_temperature_data (snd (bus k)) = Some fr"
      by (simp add: read_loop_checked split: if_splits)
    with False show ?thesis
      by (intro exI [of _ 0]) (simp add: read_loop_checked parse_Some_length split: if_splits)
  qed
qed

lemma read_loop_exhausted:
  "(\<forall>i<n. attempt_mismatch (bus (k + i))) \<Longrightarrow> read_loop bus n k = (Inr None, k + n)"
proof (induction n arbitrary: k)
  case 0
  show ?case by simp
next
  case (Suc n)
  have "attempt_mismatch (bus k)"
    using Suc.prems [rule_format, of 0] by simp
  moreover have "\<forall>i<n. attempt_mismatch (bus (Suc k + i))"
    using Suc.prems by auto
  ultimately show ?case
    by (simp add: read_loop_mismatch Suc.IH)
qed

subsection \<open>The example frames\<close>

lemma funpow8: "(f ^^ 8) x = f (f (f (f (f (f (f (f x)))))))"
  by (simp add: eval_nat_numeral)

lemma crc8_update_unfold:
  "crc8_update c b =
     crc8_shift (crc8_shift (crc8_shift (crc8_shift
       (crc8_shift (crc8_shift (crc8_shift (crc8_shift (c XOR b))))))))"
  by (simp add: crc8_update_def funpow8)

lemma example_frame_pec: "crc8_func (0x15 # butlast example_frame) = 0xD3"
  by (simp add: example_frame_def crc8_func_def crc8_update_unfold crc8_shift_def)

lemma example_frame_nine_pec: "crc8_func (0x15 # butlast example_frame_nine) = 0xF8"
  by (simp add: example_frame_nine_def crc8_func_def crc8_update_unfold crc8_shift_def)

lemma upt_16: "[0..<16] = [0, 1, 2, 3, 4, 5, 6, 7, 8, 9, 10, 11, 12, 13, 14, 15]"
  by (simp add: upt_rec)

lemma example_frame_decoded: "parse_temperature_data example_frame = Some example_decoded"
  by (simp add: parse_eq le16_eq upt_16 example_frame_def example_decoded_def)

lemma example_frame_nine_decoded:
  "parse_temperature_data example_frame_nine = Some example_decoded_nine"
  by (simp add: parse_eq le16_eq upt_16 example_frame_nine_def example_decoded_nine_def)

lemma example_bus_attempts:
  "attempt_mismatch (example_bus 0)" "attempt_mismatch (example_bus 1)"
  "\<not> attempt_mismatch (example_bus 2)"
  using example_frame_pec
  by (simp_all add: attempt_mismatch_def example_bus_def) (simp_all add: example_frame_def)

lemma nine_bus_attempt: "\<not> attempt_mismatch (nine_bus k)"
  using example_frame_nine_pec
  by (simp add: attempt_mismatch_def nine_bus_def) (simp add: example_frame_nine_def)

lemma failing_bus_attempts: "attempt_mismatch (failing_bus k)"
  using example_frame_pec
  by (simp add: attempt_mismatch_def failing_bus_def)

lemma example_bus_read: "read example_bus 3 0 = (Inr (Some example_decoded), 3)"
proof -
  have "read_loop example_bus (Suc (Suc (Suc 0))) 0 = read_loop example_bus (Suc (Suc 0)) (Suc 0)"
    by (rule read_loop_mismatch) (rule example_bus_attempts)
  also have "\<dots> = read_loop example_bus (Suc 0) (Suc (Suc 0))"
    by (rule read_loop_mismatch) (use example_bus_attempts(2) in simp)
  also have "\<dots> = (Inr (Some example_decoded), 3)"
    using example_bus_attempts(3)
    by (simp add: read_loop_checked numeral_2_eq_2 example_frame_decoded example_bus_def)
       (simp add: example_frame_def)
  finally show ?thesis
    by (simp add: read_def numeral_3_eq_3)
qed

lemma nine_bus_read: "read nine_bus 3 0 = (Inr (Some example_decoded_nine), 1)"
proof -
  have "read_loop nine_bus (Suc (Suc (Suc 0))) 0 = (Inr (Some example_decoded_nine), 1)"
    using nine_bus_attempt [of 0]
    by (simp add: read_loop_checked example_frame_nine_decoded nine_bus_def)
       (simp add: example_frame_nine_def)
  then show ?thesis
    by (simp add: read_def numeral_3_eq_3)
qed

subsection \<open>Acceptance and retries\<close>

text \<open>
  Claim C2. A call of \<open>__read\<close> that returns a frame has found, at some attempt \<open>i\<close> below
  the maximum retry count, a byte count of 35 and a buffer of 35 bytes whose last byte is
  the CRC-8 of the prefix byte \<open>0x15\<close> followed by its first 34 bytes; every attempt
  before it was a byte-count or a checksum mismatch and was retried; the frame returned
  is the decoding of that buffer, and \<open>i + 1\<close> reads were made. When every attempt up to
  the maximum retry count is a mismatch, the call makes exactly that many reads and
  returns \<open>None\<close>. No call makes more reads than the maximum retry count.
\<close>

theorem read_accepts_only_checked_frames:
  "(fst (read bus n k) = Inr (Some fr) \<longrightarrow>
      (\<exists>i<n. (\<forall>j<i. attempt_mismatch (bus (k + j))) \<and>
              fst (bus (k + i)) = 35 \<and> length (snd (bus (k + i))) = 35 \<and>
              crc8_func (0x15 # take 34 (snd (bus (k + i)))) = snd (bus (k + i)) ! 34 \<and>
              parse_temperature_data (snd (bus (k + i))) = Some fr \<and>
              snd (read bus n k) = k + i + 1)) \<and>
   ((\<forall>i<n. attempt_mismatch (bus (k + i))) \<longrightarrow> read bus n k = (Inr None, k + n)) \<and>
   snd (read bus n k) \<le> k + n"
proof (intro conjI impI)
  assume "fst (read bus n k) = Inr (Some fr)"
  then obtain i where i: "i < n" "\<forall>j<i. attempt_mismatch (bus (k + j))"
    "\<not> attempt_mismatch (bus (k + i))"
    "parse_temperature_data (snd (bus (k + i))) = Some fr"
    "snd (read_loop bus n k) = k + i + 1"
    using read_loop_Some [of bus n k fr] by (auto simp: read_def)
  from i(4) have len: "length (snd (bus (k + i))) = 35"
    by (rule parse_Some_length)
  then have "snd (bus (k + i)) \<noteq> []"
    by auto
  with i(3) frame_last [OF len]
  have "fst (bus (k + i)) = 35"
    and "crc8_func (0x15 # take 34 (snd (bus (k + i)))) = snd (bus (k + i)) ! 34"
    by (simp_all add: attempt_mismatch_def)
  with i len show "\<exists>i<n. (\<forall>j<i. attempt_mismatch (bus (k + j))) \<and>
              fst (bus (k + i)) = 35 \<and> length (snd (bus (k + i))) = 35 \<and>
              crc8_func (0x15 # take 34 (snd (bus (k + i)))) = snd (bus (k + i)) ! 34 \<and>
              parse_temperature_data (snd (bus (k + i))) = Some fr \<and>
              snd (read bus n k) = k + i + 1"
    by (auto simp: read_def)
next
  assume "\<forall>i<n. attempt_mismatch (bus (k + i))"
  then show "read bus n k = (Inr None, k + n)"
    by (simp add: read_def read_loop_exhausted)
next
  show "snd (read bus n k) \<le> k + n"
    by (simp add: read_def read_loop_bound)
qed

theorem read_accepts_only_checked_frames_witness:
  "fst (read example_bus 3 0) = Inr (Some example_decoded) \<and>
   (\<exists>i<3. (\<forall>j<i. attempt_mismatch (example_bus (0 + j))) \<and>
           fst (example_bus (0 + i)) = 35 \<and> length (snd (example_bus (0 + i))) = 35 \<and>
           crc8_func (0x15 # take 34 (snd (example_bus (0 + i)))) = snd (example_bus (0 + i)) ! 34 \<and>
           parse_temperature_data (snd (example_bus (0 + i))) = Some example_decoded \<and>
           snd (read example_bus 3 0) = 0 + i + 1) \<and>
   attempt_mismatch (failing_bus 0) \<and> attempt_mismatch (failing_bus 1) \<and>
   attempt_mismatch (failing_bus 2) \<and>
   read failing_bus 3 0 = (Inr None, 0 + 3)"
proof -
  have accepted: "fst (read example_bus 3 0) = Inr (Some example_decoded)"
    by (simp add: example_bus_read)
  have rejected: "\<forall>i<3. attempt_mismatch (failing_bus (0 + i))"
    by (simp add: failing_bus_attempts)
  from accepted rejected
    read_accepts_only_checked_frames [of example_bus 3 0 example_decoded]
    read_accepts_only_checked_frames [of failing_bus 3 0]
  show ?thesis
    by (simp add: failing_bus_attempts)
qed

subsection \<open>The frame layout\<close>

text \<open>
  Claim C6. For every 35-byte frame, and so for every frame the checksum accepts, decoding
  yields the room temperature as the little-endian 16-bit value at offset 0 divided by
  10, and 16 pixel temperatures, the \<open>i\<close>-th being the little-endian 16-bit value at
  offset \<open>2 + 2 * i\<close> (that is, at offsets 2, 4, ..., 32) divided by 10, in this order.
  In particular room-temperature bytes \<open>[0xFA, 0x00]\<close> decode to 25 and a pixel byte pair
  \<open>[0x64, 0x00]\<close> decodes to 10.
\<close>

theorem parse_temperature_data_layout:
  assumes "length raw = 35"
  shows "parse_temperature_data raw =
           Some (real_of_int (uint (raw ! 0) + 256 * uint (raw ! 1)) / 10,
                 map (\<lambda>i. real_of_int (uint (raw ! (2 + 2 * i)) + 256 * uint (raw ! (2 + 2 * i + 1))) / 10)
                   [0..<16]) \<and>
         (raw ! 0 = 0xFA \<and> raw ! 1 = 0x00 \<longrightarrow>
            map_option fst (parse_temperature_data raw) = Some 25) \<and>
         (\<forall>i<16. raw ! (2 + 2 * i) = 0x64 \<and> raw ! (2 + 2 * i + 1) = 0x00 \<longrightarrow>
            map_option (\<lambda>fr. snd fr ! i) (parse_temperature_data raw) = Some 10)"
proof -
  have shape: "parse_temperature_data raw =
           Some (real_of_int (uint (raw ! 0) + 256 * uint (raw ! 1)) / 10,
                 map (\<lambda>i. real_of_int (uint (raw ! (2 + 2 * i)) + 256 * uint (raw ! (2 + 2 * i + 1))) / 10)
                   [0..<16])"
    using assms
    by (simp add: parse_eq le16_eq add.commute del: upt_rec_numeral)
  have room: "map_option fst (parse_temperature_data raw) = Some 25"
    if "raw ! 0 = 0xFA \<and> raw ! 1 = 0x00"
    using that by (simp add: shape del: upt_rec_numeral)
  have pixel: "map_option (\<lambda>fr. snd fr ! i) (parse_temperature_data raw) = Some 10"
    if "i < 16" "raw ! (2 + 2 * i) = 0x64 \<and> raw ! (2 + 2 * i + 1) = 0x00" for i
    using that by (simp add: shape del: upt_rec_numeral)
  from shape room pixel show ?thesis
    by blast
qed


theorem parse_temperature_data_layout_witness:
  "length example_frame = 35 \<and>
   parse_temperature_data example_frame =
     Some (25, [251 / 10, 251 / 10, 251 / 10, 251 / 10, 251 / 10, 251 / 10, 251 / 10, 251 / 10,
                251 / 10, 251 / 10, 10, 10, 10, 10, 10, 10]) \<and>
   example_frame ! 0 = 0xFA \<and> example_frame ! 1 = 0x00 \<and>
   map_option fst (parse_temperature_data example_frame) = Some 25 \<and>
   example_frame ! (2 + 2 * 10) = 0x64 \<and> example_frame ! (2 + 2 * 10 + 1) = 0x00 \<and>
   map_option (\<lambda>fr. snd fr ! 10) (parse_temperature_data example_frame) = Some 10"
proof -
  have len: "length example_frame = 35"
    by (simp add: example_frame_def)
  have bytes: "example_frame ! 0 = 0xFA \<and> example_frame ! 1 = 0x00"
    "example_frame ! (2 + 2 * 10) = 0x64 \<and> example_frame ! (2 + 2 * 10 + 1) = 0x00"
    by (simp_all add: example_frame_def)
  have decoded: "(real_of_int (uint (example_frame ! 0) + 256 * uint (example_frame ! 1)) / 10,
      map (\<lambda>i. real_of_int (uint (example_frame ! (2 + 2 * i)) +
                  256 * uint (example_frame ! (2 + 2 * i + 1))) / 10) [0..<16]) =
      (25, [251 / 10, 251 / 10, 251 / 10, 251 / 10, 251 / 10, 251 / 10, 251 / 10, 251 / 10,
                251 / 10, 251 / 10, 10, 10, 10, 10, 10, 10])"
    by (simp add: upt_16 example_frame_def)
  have ten: "(10::nat) < 16"
    by simp
  from parse_temperature_data_layout [OF len] have
    p1: "parse_temperature_data example_frame =
           Some (real_of_int (uint (example_frame ! 0) + 256 * uint (example_frame ! 1)) / 10,
                 map (\<lambda>i. real_of_int (uint (example_frame ! (2 + 2 * i)) +
                            256 * uint (example_frame ! (2 + 2 * i + 1))) / 10) [0..<16])"
    and p2: "map_option fst (parse_temperature_data example_frame) = Some 25"
    and p3: "map_option (\<lambda>fr. snd fr ! 10) (parse_temperature_data example_frame) = Some 10"
    using bytes ten by blast+
  from p1 decoded have "parse_temperature_data example_frame =
     Some (25, [251 / 10, 251 / 10, 251 / 10, 251 / 10, 251 / 10, 251 / 10, 251 / 10, 251 / 10,
                251 / 10, 251 / 10, 10, 10, 10, 10, 10, 10])"
    by (simp only:)
  with len bytes p2 p3 show ?thesis
    by blast
qed

subsection \<open>The occupancy decision\<close>

lemma cells_above_count:
  "temperature_cells_above_threshold room ps = length (filter (\<lambda>t. room < t) ps)"
  by (induction ps) (simp_all add: temperature_cells_above_threshold_def)

lemma read_Some_pixels:
  assumes "fst (read bus n k) = Inr (Some (room, pixels))"
  shows "length pixels = 16"
proof -
  from assms obtain i where p: "parse_temperature_data (snd (bus (k + i))) = Some (room, pixels)"
    using read_loop_Some [of bus n k "(room, pixels)"] by (auto simp: read_def)
  then have "length (snd (bus (k + i))) = 35"
    by (rule parse_Some_length)
  from parse_eq [OF this] p show ?thesis
    by (simp del: upt_rec_numeral)
qed

text \<open>
  Claim C3. When a frame was acquired it has 16 pixels, and \<open>occupied_status\<close> is true
  exactly when at least 10 of them are strictly above the room temperature, so that 10
  pixels above give true and 9 give false. When no frame was acquired (\<open>__read\<close> returned
  \<open>None\<close>), \<open>occupied_status\<close> returns false and raises nothing.
\<close>

theorem occupied_status_threshold:
  "(fst (read bus n k) = Inr (Some (room, pixels)) \<longrightarrow>
      length pixels = 16 \<and>
      occupied_status bus n k =
        (Inr (10 \<le> length (filter (\<lambda>t. room < t) pixels)), snd (read bus n k))) \<and>
   (fst (read bus n k) = Inr None \<longrightarrow>
      occupied_status bus n k = (Inr False, snd (read bus n k)))"
proof (intro conjI impI)
  assume r: "fst (read bus n k) = Inr (Some (room, pixels))"
  then show "length pixels = 16"
    by (rule read_Some_pixels)
  from r show "occupied_status bus n k =
        (Inr (10 \<le> length (filter (\<lambda>t. room < t) pixels)), snd (read bus n k))"
    by (cases "read bus n k")
      (simp add: occupied_status_def cells_above_count MAX_CELLS_ABOVE_ROOM_TEMPERATURE_def)
next
  assume "fst (read bus n k) = Inr None"
  then show "occupied_status bus n k = (Inr False, snd (read bus n k))"
    by (cases "read bus n k") (simp add: occupied_status_def)
qed


theorem occupied_status_threshold_witness:
  "fst (read example_bus 3 0) = Inr (Some example_decoded) \<and>
   length (filter (\<lambda>t. fst example_decoded < t) (snd example_decoded)) = 10 \<and>
   occupied_status example_bus 3 0 = (Inr True, 3) \<and>
   fst (read nine_bus 3 0) = Inr (Some example_decoded_nine) \<and>
   length (filter (\<lambda>t. fst example_decoded_nine < t) (snd example_decoded_nine)) = 9 \<and>
   occupied_status nine_bus 3 0 = (Inr False, 1) \<and>
   fst (read failing_bus 3 0) = Inr None \<and>
   occupied_status failing_bus 3 0 = (Inr False, 3)"
proof -
  have none: "read failing_bus 3 0 = (Inr None, 3)"
    using read_loop_exhausted [of 3 failing_bus 0] by (simp add: read_def failing_bus_attempts)
  have ten: "length (filter (\<lambda>t. fst example_decoded < t) (snd example_decoded)) = 10"
    by (simp add: example_decoded_def)
  have nine: "length (filter (\<lambda>t. fst example_decoded_nine < t) (snd example_decoded_nine)) = 9"
    by (simp add: example_decoded_nine_def)
  from occupied_status_threshold [of example_bus 3 0 "fst example_decoded" "snd example_decoded"]
  have a: "occupied_status example_bus 3 0 = (Inr True, 3)"
    by (simp add: example_bus_read ten)
  from occupied_status_threshold [of nine_bus 3 0 "fst example_decoded_nine" "snd example_decoded_nine"]
  have b: "occupied_status nine_bus 3 0 = (Inr False, 1)"
    by (simp add: nine_bus_read nine)
  from occupied_status_threshold [of failing_bus 3 0]
  have c: "occupied_status failing_bus 3 0 = (Inr False, 3)"
    by (simp add: none)
  from a b c ten nine none show ?thesis
    by (simp add: example_bus_read nine_bus_read)
qed

section \<open>Properties of the simulated GPIO\<close>

subsection \<open>Operations called with the locks free\<close>

lemma held_after_append: "held_after H (xs @ ys) = held_after (held_after H xs) ys"
  by (simp add: held_after_def)

lemma held_after_simps:
  "held_after H [] = H"
  "held_after H (e # es) = held_after (lock_step H e) es"
  by (simp_all add: held_after_def)

lemma held_trace_append: "held (s\<lparr>trace := trace s @ es\<rparr>) = held_after (held s) es"
  by (simp add: held_def held_after_append)

lemma outside_lock_append:
  "outside_lock P H (xs @ ys) \<longleftrightarrow> outside_lock P H xs \<and> outside_lock P (held_after H xs) ys"
  by (induction xs arbitrary: H) (auto simp: held_after_simps)

lemma with_lock_free:
  "l \<notin> held s \<Longrightarrow>
   with_lock l body s =
     (case body (s\<lparr>trace := trace s @ [Acquire l]\<rparr>) of
        (Inl Deadlock, s2) \<Rightarrow> (Inl Deadlock, s2)
      | (r, s2) \<Rightarrow> (r, release l s2))"
  by (simp add: with_lock_def acquire_def)

lemma set_should_sync_free:
  "SyncClientLock \<notin> held s \<Longrightarrow>
   set_should_sync v s =
     (Inr (), s\<lparr>should_sync := v,
                trace := trace s @ [Acquire SyncClientLock, Release SyncClientLock]\<rparr>)"
  by (simp add: set_should_sync_def with_lock_free release_def)

lemma should_sync_client_free:
  "SyncClientLock \<notin> held s \<Longrightarrow>
   should_sync_client s =
     (Inr (should_sync s), s\<lparr>trace := trace s @ [Acquire SyncClientLock, Release SyncClientLock]\<rparr>)"
  by (simp add: should_sync_client_def with_lock_free release_def)

lemma GPIO_setup_free:
  "PinMapLock \<notin> held s \<Longrightarrow>
   GPIO_setup pin dir s =
     (Inr (), s\<lparr>pin_map := AList.update pin (0, None) (pin_map s),
                trace := trace s @ [Acquire PinMapLock, Release PinMapLock]\<rparr>)"
  by (simp add: GPIO_setup_def with_lock_free release_def)

lemma GPIO_input_free:
  "PinMapLock \<notin> held s \<Longrightarrow>
   GPIO_input pin s =
     (Inr (map_option fst (map_of (pin_map s) pin)),
      s\<lparr>trace := trace s @ [Acquire PinMapLock, Release PinMapLock]\<rparr>)"
  by (simp add: GPIO_input_def with_lock_free release_def split: option.split)

lemma GPIO_add_event_detect_free:
  "PinMapLock \<notin> held s \<Longrightarrow>
   GPIO_add_event_detect pin rf_type callback bouncetime s =
     (case map_of (pin_map s) pin of
        None \<Rightarrow> (Inl KeyError, s\<lparr>trace := trace s @ [Acquire PinMapLock, Release PinMapLock]\<rparr>)
      | Some (curState, old_call) \<Rightarrow>
          (Inr (), s\<lparr>pin_map := AList.update pin (curState, callback) (pin_map s),
                     trace := trace s @ [Acquire PinMapLock, Release PinMapLock]\<rparr>))"
  by (simp add: GPIO_add_event_detect_def with_lock_free release_def split: option.split)

lemma GPIO_output_free:
  "PinMapLock \<notin> held s \<Longrightarrow>
   GPIO_output env pin val s =
     (case map_of (pin_map s) pin of
        None \<Rightarrow>
          (let s1 = s\<lparr>trace := trace s @ [Acquire PinMapLock, Release PinMapLock]\<rparr>
           in if simulatorConn s1 then set_should_sync True s1 else (Inr (), s1))
      | Some (old_val, callback) \<Rightarrow>
          (let s1 = s\<lparr>pin_map := AList.update pin (val, callback) (pin_map s),
                       trace := trace s @ [Acquire PinMapLock, Release PinMapLock]\<rparr>
           in case (case callback of None \<Rightarrow> (Inr (), s1) | Some c \<Rightarrow> invoke env c pin s1) of
                (Inl e, s2) \<Rightarrow> (Inl e, s2)
              | (Inr u, s2) \<Rightarrow>
                  if simulatorConn s2 then set_should_sync True s2 else (Inr (), s2)))"
  by (simp add: GPIO_output_def with_lock_free release_def Let_def split: option.split)

lemma serialize_pins_error: "serialize_pins items b = Inl e \<Longrightarrow> e = ValueError"
  by (induction items b rule: serialize_pins.induct)
    (auto simp: append_byte_def split: if_splits sum.splits)

lemma sync_with_client_free:
  "held s = {} \<Longrightarrow>
   sync_with_client s =
     (case serialize_pins (pin_map s) [] of
        Inl e \<Rightarrow> (Inl e, s\<lparr>trace := trace s @ [Acquire PinMapLock, Release PinMapLock]\<rparr>)
      | Inr send_b \<Rightarrow>
          if socket_up s
          then (Inr (), s\<lparr>should_sync := False,
                          trace := trace s @ [Acquire PinMapLock, Send send_b,
                            Acquire SyncClientLock, Release SyncClientLock, Release PinMapLock]\<rparr>)
          else (Inl SocketError,
                s\<lparr>trace := trace s @ [Acquire PinMapLock, Send send_b, Release PinMapLock]\<rparr>))"
  by (auto simp: sync_with_client_def with_lock_free release_def socket_send_def Let_def
      set_should_sync_free held_trace_append held_after_simps
      split: sum.split py_error.split dest: serialize_pins_error)

lemma serialize_pins_fits:
  "list_all fits_triple items \<Longrightarrow>
   serialize_pins items b = Inr (b @ concat (map pin_triple items))"
  by (induction items b rule: serialize_pins.induct)
    (simp_all add: fits_triple_def pin_triple_def append_byte_def)

lemma serialize_pins_overflow:
  "\<not> list_all fits_triple items \<Longrightarrow> serialize_pins items b = Inl ValueError"
  by (induction items b rule: serialize_pins.induct)
    (auto simp: fits_triple_def append_byte_def split: sum.splits dest: serialize_pins_error)

lemma initial_held [simp]:
  "held initial_state = {}" "held one_pin_state = {}" "held callback_state = {}"
  "held wide_value_state = {}" "held two_pin_state = {}"
  by (simp_all add: held_def held_after_def initial_state_def one_pin_state_def
      callback_state_def wide_value_state_def two_pin_state_def)

lemmas sim_eval =
  GPIO_setup_free GPIO_input_free GPIO_add_event_detect_free GPIO_output_free
  set_should_sync_free should_sync_client_free sync_with_client_free
  held_def held_after_simps initial_state_def one_pin_state_def callback_state_def
  wide_value_state_def two_pin_state_def

lemma held_after_pin_section [simp]:
  "held_after H [Acquire PinMapLock, Release PinMapLock] = H - {PinMapLock}"
  "held_after H [Acquire SyncClientLock, Release SyncClientLock] = H - {SyncClientLock}"
  by (simp_all add: held_after_simps)

lemma update_entry_in_set: "(k, v) \<in> set (AList.update k v al)"
  by (rule map_of_SomeD) (simp add: AList.update_conv')

lemma sync_with_client_overflow:
  assumes "held s = {}" and "\<not> list_all fits_triple (pin_map s)"
  shows "sync_with_client s =
           (Inl ValueError, s\<lparr>trace := trace s @ [Acquire PinMapLock, Release PinMapLock]\<rparr>)"
  using assms by (simp add: sync_with_client_free serialize_pins_overflow)

subsection \<open>Malformed messages\<close>

text \<open>
  Claim C1, which the code does not meet. A message whose first byte is \<open>0x35\<close> and that
  has fewer than 3 bytes passes the length check of \<open>process_message\<close>, which only
  rejects the lengths 0 and above 3. Reading the missing argument byte then raises
  \<open>IndexError\<close>. The pin table is unchanged, but the message is not discarded quietly:
  \<open>IndexError\<close> is not a \<open>socket.error\<close>, so it leaves the receive loop of the server
  thread as well.
\<close>

theorem process_message_short_set_pin:
  "process_message env [0x35, 0x05] s = (Inl IndexError, s) \<and>
   process_message env [0x35] s = (Inl IndexError, s) \<and>
   server_loop_body env (Received [0x35, 0x05]) s = (Inl IndexError, s)"
  by (simp add: process_message_def item_def server_loop_body_def except_socket_error_def)

subsection \<open>Unregistered pins\<close>

text \<open>
  Claim C9, which the code does not meet. On a table that does not hold pin 5, reading
  the pin returns \<open>None\<close> and writing it leaves the table unchanged, as both operations
  test \<open>pin in _pin_map\<close> first. \<open>add_event_detect\<close> makes no such test: its lookup
  \<open>_pin_map[pin]\<close> raises \<open>KeyError\<close>.
\<close>

theorem add_event_detect_unregistered:
  "GPIO_add_event_detect 5 1 (Some 7) 200 initial_state =
     (Inl KeyError, initial_state\<lparr>trace := [Acquire PinMapLock, Release PinMapLock]\<rparr>) \<and>
   GPIO_input 5 initial_state =
     (Inr None, initial_state\<lparr>trace := [Acquire PinMapLock, Release PinMapLock]\<rparr>) \<and>
   pin_map (snd (GPIO_output env 5 1 initial_state)) = pin_map initial_state"
  by (simp add: sim_eval)

subsection \<open>Values that are not bytes\<close>

text \<open>
  Claim C10. A write does not validate its value. For every registered pin (here one
  without a callback) and every value below 0 or above 255, the write returns normally
  and stores the value, so that a read returns it; the full sync that follows raises
  \<open>ValueError\<close> while it serializes the table, and sends nothing.
\<close>

theorem output_stores_unvalidated_value:
  assumes "map_of (pin_map s) pin = Some (old_val, None)"
    and "val < 0 \<or> 255 < val"
    and "held s = {}"
  shows "fst (GPIO_output env pin val s) = Inr () \<and>
         map_of (pin_map (snd (GPIO_output env pin val s))) pin = Some (val, None) \<and>
         fst (GPIO_input pin (snd (GPIO_output env pin val s))) = Inr (Some val) \<and>
         fst (sync_with_client (snd (GPIO_output env pin val s))) = Inl ValueError \<and>
         filter is_send (trace (snd (sync_with_client (snd (GPIO_output env pin val s))))) =
           filter is_send (trace (snd (GPIO_output env pin val s)))"
proof -
  define s' where "s' = snd (GPIO_output env pin val s)"
  have out: "GPIO_output env pin val s = (Inr (), s')"
    and table: "pin_map s' = AList.update pin (val, None) (pin_map s)"
    and free: "held s' = {}"
    using assms(1,3)
    by (auto simp: s'_def GPIO_output_free set_should_sync_free held_def held_after_append
        held_after_simps Let_def)
  have stored: "map_of (pin_map s') pin = Some (val, None)"
    by (simp add: table AList.update_conv')
  have "(pin, val, None) \<in> set (pin_map s')"
    unfolding table by (rule update_entry_in_set)
  moreover have "\<not> fits_triple (pin, val, None)"
    using assms(2) by (auto simp: fits_triple_def)
  ultimately have "\<not> list_all fits_triple (pin_map s')"
    by (auto simp: list_all_iff)
  with free have sync: "sync_with_client s' =
      (Inl ValueError, s'\<lparr>trace := trace s' @ [Acquire PinMapLock, Release PinMapLock]\<rparr>)"
    by (rule sync_with_client_overflow)
  have read: "fst (GPIO_input pin s') = Inr (Some val)"
    using free by (simp add: GPIO_input_free stored)
  from out stored read sync show ?thesis
    by (simp add: s'_def [symmetric] is_send_def)
qed

theorem output_stores_unvalidated_value_witness:
  "map_of (pin_map one_pin_state) 1 = Some (0, None) \<and>
   held one_pin_state = {} \<and>
   fst (GPIO_output reading_callback 1 256 one_pin_state) = Inr () \<and>
   map_of (pin_map (snd (GPIO_output reading_callback 1 256 one_pin_state))) 1 = Some (256, None) \<and>
   fst (GPIO_input 1 (snd (GPIO_output reading_callback 1 256 one_pin_state))) = Inr (Some 256) \<and>
   fst (sync_with_client (snd (GPIO_output reading_callback 1 256 one_pin_state))) = Inl ValueError \<and>
   filter is_send
     (trace (snd (sync_with_client (snd (GPIO_output reading_callback 1 256 one_pin_state))))) = []"
proof -
  have registered: "map_of (pin_map one_pin_state) 1 = Some (0, None)"
    by (simp add: one_pin_state_def initial_state_def)
  have wide: "(256::int) < 0 \<or> 255 < (256::int)"
    by simp
  have quiet: "filter is_send (trace (snd (GPIO_output reading_callback 1 256 one_pin_state))) = []"
    by (simp add: sim_eval is_send_def)
  from output_stores_unvalidated_value [OF registered wide initial_held(2), of reading_callback]
    registered quiet
  show ?thesis
    by simp
qed

end
